theory Spec2Isabelle
  imports
    Main
    "HOL-Library.Word"
    "HOL-Library.Char_ord"
    "HOL-Library.List_Lexorder"
    "HOL-Library.AList"
begin

unbundle bit_operations_syntax

chapter \<open>A shallow embedding of the mup plugin manager, account manager and LDAP filter escaping\<close>

text \<open>
  Go strings are byte sequences: they are modelled as \<open>string\<close> (\<open>char list\<close>, a
  \<open>char\<close> being one byte). Where the source does arithmetic on a byte the byte is read
  as an \<open>8 word\<close>. Go compares strings bytewise and lexicographically; that is the
  order \<open>HOL-Library.Char_ord\<close> and \<open>HOL-Library.List_Lexorder\<close> give to \<open>string\<close>.
  Lengths and indices are \<open>nat\<close>: a Go \<open>int\<close> holding the length of a string that
  fits in memory never wraps.
\<close>

section \<open>Definitions\<close>

subsection \<open>ldap/ldap.go: \<open>EscapeFilter\<close>\<close>

type_synonym byte = "8 word"

definition byte_of :: "char \<Rightarrow> byte" where
  "byte_of c = of_char c"

text \<open>\<^verbatim>\<open>var hex = "0123456789abcdef"\<close>\<close>

definition hex :: string where
  "hex = ''0123456789abcdef''"

text \<open>
  \<^verbatim>\<open>return c > 0x7f || c == '(' || c == ')' || c == '\\' || c == '*' || c == 0\<close>
  (\<open>CHR 0x5C\<close> is the backslash).
\<close>

definition mustEscape :: "char \<Rightarrow> bool" where
  "mustEscape c \<longleftrightarrow>
     byte_of c > 0x7f \<or> c = CHR ''('' \<or> c = CHR '')'' \<or> c = CHR 0x5C \<or> c = CHR ''*'' \<or> byte_of c = 0"

text \<open>
  An index expression \<open>xs[i]\<close> and an indexed assignment \<open>xs[i] = v\<close> of Go panic
  out of range; \<open>None\<close> is that panic.
\<close>

definition go_index :: "'a list \<Rightarrow> nat \<Rightarrow> 'a option" where
  "go_index xs i = (if i < length xs then Some (xs ! i) else None)"

definition go_store :: "'a list \<Rightarrow> nat \<Rightarrow> 'a \<Rightarrow> 'a list option" where
  "go_store xs i v = (if i < length xs then Some (xs[i := v]) else None)"

text \<open>
  The first loop of \<open>EscapeFilter\<close>:
  \<^verbatim>\<open>for i := 0; i < len(filter); i++ { if mustEscape(filter[i]) { escape++ } }\<close>.
  The source's parameter \<open>filter\<close> is written \<open>flt\<close>, \<open>filter\<close> being a constant of HOL.
\<close>

function count_escape :: "string \<Rightarrow> nat \<Rightarrow> nat \<Rightarrow> nat" where
  "count_escape flt i escape =
     (if i < length flt
      then count_escape flt (i + 1) (if mustEscape (flt ! i) then escape + 1 else escape)
      else escape)"
  by pat_completeness auto
termination
  by (relation "measure (\<lambda>(flt, i, escape). length flt - i)") auto

text \<open>
  The second loop, over \<open>i\<close> and \<open>j\<close>, writing into \<open>buf\<close>:
  \<^verbatim>\<open>buf[j+0] = '\\'; buf[j+1] = hex[c>>4]; buf[j+2] = hex[c&0xf]; j += 3\<close> for a byte that
  must be escaped, \<^verbatim>\<open>buf[j] = c; j++\<close> otherwise.
\<close>

function escape_fill :: "string \<Rightarrow> nat \<Rightarrow> nat \<Rightarrow> string \<Rightarrow> string option" where
  "escape_fill flt i j buf =
     (if i < length flt then
        (let c = flt ! i in
         if mustEscape c then
           (case go_store buf (j + 0) (CHR 0x5C) of None \<Rightarrow> None | Some buf1 \<Rightarrow>
            (case go_index hex (unat (drop_bit 4 (byte_of c))) of None \<Rightarrow> None | Some h1 \<Rightarrow>
             (case go_store buf1 (j + 1) h1 of None \<Rightarrow> None | Some buf2 \<Rightarrow>
              (case go_index hex (unat (byte_of c AND 0xf)) of None \<Rightarrow> None | Some h2 \<Rightarrow>
               (case go_store buf2 (j + 2) h2 of None \<Rightarrow> None | Some buf3 \<Rightarrow>
                  escape_fill flt (i + 1) (j + 3) buf3)))))
         else
           (case go_store buf j c of None \<Rightarrow> None | Some buf1 \<Rightarrow>
              escape_fill flt (i + 1) (j + 1) buf1))
      else Some buf)"
  by pat_completeness auto
termination
  by (relation "measure (\<lambda>(flt, i, j, buf). length flt - i)") auto

declare count_escape.simps [simp del] escape_fill.simps [simp del]

text \<open>
  \<open>EscapeFilter\<close>: the string itself when nothing is to be escaped, else the filled buffer
  \<^verbatim>\<open>make([]byte, len(filter)+escape*2)\<close>. \<open>None\<close> is a run-time panic.
\<close>

definition EscapeFilter :: "string \<Rightarrow> string option" where
  "EscapeFilter flt =
     (let escape = count_escape flt 0 0 in
      if escape = 0 then Some flt
      else escape_fill flt 0 0 (replicate (length flt + escape * 2) (CHR 0x00)))"

text \<open>
  The specification of the escaping, in the words of the specification and independent of the
  table \<open>hex\<close>: the lowercase hexadecimal digit of a value below 16, the bytes that are
  escaped, and the escape of one byte.
\<close>

definition hex_digit :: "nat \<Rightarrow> char" where
  "hex_digit n =
     (if n < 10 then char_of (of_char (CHR ''0'') + n) else char_of (of_char (CHR ''a'') + (n - 10)))"

definition special :: "char \<Rightarrow> bool" where
  "special c \<longleftrightarrow>
     (of_char c :: nat) > 0x7f \<or> (of_char c :: nat) = 0 \<or>
     c \<in> {CHR ''('', CHR '')'', CHR 0x5C, CHR ''*''}"

definition escaped :: "char \<Rightarrow> string" where
  "escaped c =
     (if special c
      then [CHR 0x5C, hex_digit ((of_char c :: nat) div 16), hex_digit ((of_char c :: nat) mod 16)]
      else [c])"

definition escape_all :: "string \<Rightarrow> string" where
  "escape_all s = concat (map escaped s)"

subsection \<open>plugin.go: ids, messages and plugin state\<close>

text \<open>
  \<open>bson.ObjectId\<close> is a Go string type (\<^verbatim>\<open>type ObjectId string\<close>), so the comparisons
  \<open><\<close>, \<open>>\<close> and \<open>>=\<close> of the source are string comparisons, and \<open>""\<close> is the id
  that was never set. \<open>Valid\<close> is the library's test that an id has exactly 12 bytes.
\<close>

type_synonym ObjectId = string

definition Valid :: "ObjectId \<Rightarrow> bool" where
  "Valid oid \<longleftrightarrow> length oid = 12"


text \<open>
  The fields of \<open>Message\<close> that the manager code reads or writes. \<open>Id'\<close> is the field
  \<open>Id\<close> of the source (\<open>Id\<close> is a constant of HOL). The declaration of the struct and of
  \<open>cmdPong\<close> are in a file of the package that is not among the sources; \<open>cmdPong\<close> is
  the IRC verb of the reply the tests send back (\<^verbatim>\<open>"PONG" + ping[4:]\<close>).
\<close>

record Message =
  Id' :: ObjectId
  Account :: string
  Command :: string
  Text :: string
  BotText :: string
  AsNick :: string

definition cmdPong :: string where
  "cmdPong = ''PONG''"

definition rollbackAccount :: string where
  "rollbackAccount = ''<rollback>''"

definition rollbackText :: string where
  "rollbackText = ''<rollback>''"

text \<open>
  \<^verbatim>\<open>&Message{Command: cmdPong, Account: rollbackAccount, Text: rollbackText}\<close>: the wake-up
  message \<open>refreshPlugins\<close> inserts; every other field has Go's zero value.
\<close>

definition wakeMessage :: Message where
  "wakeMessage =
     \<lparr>Id' = '''', Account = rollbackAccount, Command = cmdPong, Text = rollbackText,
      BotText = '''', AsNick = ''''\<rparr>"

text \<open>
  \<open>Command\<close> of the source: the message, the command name and the parsed arguments
  (\<open>marshalRaw(args)\<close>, kept as a byte string). Its fields are prefixed here, \<open>name\<close> and
  \<open>args\<close> being too common to take as constants.
\<close>

record Command =
  cmd_msg :: Message
  cmd_name :: string
  cmd_args :: string

text \<open>
  \<open>pluginInfo\<close> is the document of the collection \<open>plugins\<close>; \<open>Config\<close> and \<open>Targets\<close> are
  the \<open>Data\<close> bytes of the \<open>bson.Raw\<close> values.
\<close>

record pluginInfo =
  Name :: string
  LastId :: ObjectId
  Config :: string
  Targets :: string
  State :: string

text \<open>
  A plugin is a value of the interface \<open>Stopper\<close> that may also implement
  \<open>MessageHandler\<close>, \<open>OutgoingHandler\<close> and \<open>CommandHandler\<close>; the type assertions
  \<^verbatim>\<open>state.plugin.(MessageHandler)\<close> of the source read these three capabilities.
\<close>

record Stopper =
  isMessageHandler :: bool
  isOutgoingHandler :: bool
  isCommandHandler :: bool

text \<open>
  The plugger a plugin is started with: \<open>newPlugger(info.Name, ...)\<close>, \<open>setConfig\<close>,
  \<open>setTargets\<close>.
\<close>

record Plugger =
  PluggerName :: string
  PluggerConfig :: string
  PluggerTargets :: string

text \<open>
  A \<open>schema.Command\<close> is used through its method \<open>Parse\<close> only: from the text, an error
  message (\<open>Inl\<close>) or the arguments (\<open>Inr\<close>). \<open>Commands\<close> of a \<open>PluginSpec\<close> is used through
  \<open>Commands.Command(name)\<close> only, \<open>None\<close> being its \<open>nil\<close>.
\<close>

type_synonym schema_Command = "string \<Rightarrow> string + string"

record PluginSpec =
  SpecName :: string
  Help :: string
  Start :: "Plugger \<Rightarrow> Stopper"
  Commands :: "string \<rightharpoonup> schema_Command"

record pluginState =
  info :: pluginInfo
  spec :: PluginSpec
  plugger :: Plugger
  plugin :: Stopper

text \<open>
  What the manager code calls and the sources do not hold, taken as parameters:
  \<open>schema.CommandName\<close>, whether \<open>Plugger.Target(msg)\<close> is not \<open>nil\<close>, and the table
  \<open>registeredPlugins\<close> that \<open>RegisterPlugin\<close> fills at start-up.
\<close>

record externals =
  CommandName :: "string \<Rightarrow> string"
  Target :: "Plugger \<Rightarrow> Message \<Rightarrow> bool"
  registeredPlugins :: "string \<rightharpoonup> PluginSpec"

text \<open>
  A managed LDAP connection is used through \<open>Conn()\<close> only, which hands out a connection
  or \<open>nil\<close>; connections are told apart by a number.
\<close>

type_synonym ldap_Conn = nat

record ManagedConn =
  Conn :: "ldap_Conn option"

text \<open>
  The state of the plugin manager that the statements below are about. \<open>alive\<close> is
  \<open>m.tomb.Alive()\<close>. The Go map \<open>m.plugins\<close> is an association list with distinct keys:
  the order of the list stands for the order in which \<open>range\<close> happens to visit the map.
  \<open>database_plugins\<close> is the collection \<open>plugins\<close> of \<open>m.database\<close> in its natural order,
  and \<open>database_up\<close> tells whether the operations on that collection succeed.
\<close>

record pluginManager =
  alive :: bool
  configPlugins :: "string list option"
  plugins :: "(string \<times> pluginState) list"
  ldapConns :: "string \<rightharpoonup> ManagedConn"
  database_up :: bool
  database_plugins :: "pluginInfo list"

text \<open>
  What a step of the manager does to the outside, in the order it does it. Logging is
  left out. A call that \<open>handle\<close> makes, on the plugin, on a command schema or on the
  plugger:
\<close>

datatype handler_call =
    HandleMessage Message
  | HandleOutgoing Message
  | HandleCommand Command
  | SchemaParse string string "string + string"
  | Sendf Message string

text \<open>
  \<open>SchemaParse cmdName text result\<close> is the call \<open>cmdSchema.Parse(msg.BotText)\<close> on the
  schema of the command \<open>cmdName\<close> with what it returned, an error message (\<open>Inl\<close>) or
  the arguments; \<open>Sendf msg text\<close> is \<open>state.plugger.Sendf(msg, format, args...)\<close> with
  the formatted text. The effects of the manager name the plugin by its key in \<open>m.plugins\<close>:
  \<open>SetLastId\<close> is the assignment \<open>state.info.LastId = msg.Id\<close>, \<open>Handle\<close> the call
  \<open>state.handle(msg, cmdName)\<close>, \<open>PluginCall\<close> a call that \<open>handle\<close> makes,
  \<open>UpdateLastId\<close> the call \<^verbatim>\<open>plugins.UpdateId(name, {$set: {lastid: msg.Id}})\<close>,
  \<open>UpdateCommands\<close> the update of the commands schema, \<open>StopPlugin\<close> and \<open>StartPlugin\<close>
  the calls \<open>state.plugin.Stop()\<close> and \<open>spec.Start(plugger)\<close>, \<open>InsertIncoming\<close> the insert
  into the collection \<open>incoming\<close>, \<open>SendRollback\<close> the send on \<open>m.rollback\<close>.
\<close>

datatype effect =
    SetLastId string ObjectId
  | Handle string Message string
  | PluginCall string handler_call
  | UpdateLastId string ObjectId
  | UpdateCommands string
  | StopPlugin string
  | StartPlugin string
  | InsertIncoming Message
  | SendRollback ObjectId

text \<open>The plugin an effect is about.\<close>

fun effect_plugin :: "effect \<Rightarrow> string option" where
  "effect_plugin (SetLastId n i) = Some n"
| "effect_plugin (Handle n msg c) = Some n"
| "effect_plugin (PluginCall n h) = Some n"
| "effect_plugin (UpdateLastId n i) = Some n"
| "effect_plugin (UpdateCommands n) = Some n"
| "effect_plugin (StopPlugin n) = Some n"
| "effect_plugin (StartPlugin n) = Some n"
| "effect_plugin (InsertIncoming msg) = None"
| "effect_plugin (SendRollback i) = None"

text \<open>
  What a Go function that may panic gives: the panic, the error it returns, or its value.
\<close>

datatype error =
    ErrLDAPNotFound string
  | ErrNotRegistered string


subsection \<open>plugin.go: the handlers\<close>

definition handleMessage :: "pluginState \<Rightarrow> Message \<Rightarrow> handler_call list" where
  "handleMessage st msg = (if isMessageHandler (plugin st) then [HandleMessage msg] else [])"

definition handleOutgoing :: "pluginState \<Rightarrow> Message \<Rightarrow> handler_call list" where
  "handleOutgoing st msg = (if isOutgoingHandler (plugin st) then [HandleOutgoing msg] else [])"

text \<open>
  \<open>handleCommand\<close>: the four early returns of the source in their order; on a parse error
  \<^verbatim>\<open>state.plugger.Sendf(msg, "Oops: %v", err)\<close>, where \<open>%v\<close> prints the error's message.
\<close>

definition handleCommand :: "pluginState \<Rightarrow> Message \<Rightarrow> string \<Rightarrow> handler_call list" where
  "handleCommand st msg cmdName =
     (if cmdName = '''' then []
      else if \<not> isCommandHandler (plugin st) then []
      else (case Commands (spec st) cmdName of
              None \<Rightarrow> []
            | Some cmdSchema \<Rightarrow>
                (case cmdSchema (BotText msg) of
                   Inl err \<Rightarrow>
                     [SchemaParse cmdName (BotText msg) (Inl err), Sendf msg (''Oops: '' @ err)]
                 | Inr parsed \<Rightarrow>
                     [SchemaParse cmdName (BotText msg) (Inr parsed),
                      HandleCommand \<lparr>cmd_msg = msg, cmd_name = cmdName, cmd_args = parsed\<rparr>])))"

definition handle :: "pluginState \<Rightarrow> Message \<Rightarrow> string \<Rightarrow> handler_call list" where
  "handle st msg cmdName =
     (if AsNick msg = '''' then handleOutgoing st msg
      else handleCommand st msg cmdName @ handleMessage st msg)"

subsection \<open>plugin.go: the dispatch of an incoming message in \<open>pluginManager.loop\<close>\<close>

text \<open>
  \<^verbatim>\<open>plugins.UpdateId(name, bson.D{{"$set", bson.D{{"lastid", msg.Id}}}})\<close>: the new
  collection, or \<open>None\<close> for the error the source logs (the database is down, or no
  document has this id).
\<close>

definition UpdateId_lastid :: "bool \<Rightarrow> pluginInfo list \<Rightarrow> string \<Rightarrow> ObjectId \<Rightarrow> pluginInfo list option" where
  "UpdateId_lastid up coll n oid =
     (if up \<and> n \<in> Name ` set coll
      then Some (map (\<lambda>d. if Name d = n then d\<lparr>LastId := oid\<rparr> else d) coll)
      else None)"

text \<open>
  The body of \<^verbatim>\<open>for name, state := range m.plugins\<close>, over the entries still to visit;
  it gives the entries as they are afterwards, the collection and the effects.
\<close>

fun loop_plugins ::
  "externals \<Rightarrow> bool \<Rightarrow> Message \<Rightarrow> string \<Rightarrow> (string \<times> pluginState) list \<Rightarrow> pluginInfo list \<Rightarrow>
     (string \<times> pluginState) list \<times> pluginInfo list \<times> effect list" where
  "loop_plugins ext up msg cmdName [] coll = ([], coll, [])"
| "loop_plugins ext up msg cmdName ((n, st) # rest) coll =
     (if LastId (info st) \<ge> Id' msg \<or> \<not> Target ext (plugger st) msg then
        (case loop_plugins ext up msg cmdName rest coll of
           (rest', coll', effs) \<Rightarrow> ((n, st) # rest', coll', effs))
      else
        (let st' = st\<lparr>info := (info st)\<lparr>LastId := Id' msg\<rparr>\<rparr>;
             called = map (PluginCall n) (handle st' msg cmdName);
             coll1 = (case UpdateId_lastid up coll n (Id' msg) of None \<Rightarrow> coll | Some c \<Rightarrow> c)
         in (case loop_plugins ext up msg cmdName rest coll1 of
               (rest', coll', effs) \<Rightarrow>
                 ((n, st') # rest', coll',
                  [SetLastId n (Id' msg), Handle n msg cmdName] @ called @
                  [UpdateLastId n (Id' msg)] @ effs))))"

text \<open>
  The case \<^verbatim>\<open>msg := <-m.incoming\<close> of the select of \<open>pluginManager.loop\<close>.
\<close>

definition loop_incoming :: "externals \<Rightarrow> pluginManager \<Rightarrow> Message \<Rightarrow> pluginManager \<times> effect list" where
  "loop_incoming ext m msg =
     (if Command msg = cmdPong then (m, [])
      else
        (let cmdName = CommandName ext (BotText msg) in
         (case loop_plugins ext (database_up m) msg cmdName (plugins m) (database_plugins m) of
            (ps, coll, effs) \<Rightarrow> (m\<lparr>plugins := ps, database_plugins := coll\<rparr>, effs))))"

subsection \<open>plugin.go: \<open>ldapConn\<close>\<close>


subsection \<open>plugin.go: the tail loop\<close>

text \<open>
  \<open>pluginManager.tail\<close> runs on its own goroutine; it is modelled by the points where it
  waits for its environment and by what it may observe there.

  \<^item> \<open>NextTail\<close>: the test \<open>m.tomb.Alive()\<close> of the outer loop.
  \<^item> \<open>PollRollback\<close>: the select with a \<open>default\<close> case on \<open>m.rollback\<close>, before a new
    tail iterator is opened.
  \<^item> \<open>Iterating\<close>: the iterator is open, at the test of the inner loop and \<open>iter.Next\<close>.
  \<^item> \<open>DeliverMsg msg\<close>: blocked in the select labelled \<open>DeliverMsg\<close> with \<open>msg\<close>.
  \<^item> \<open>Backoff\<close>: the iterator is closed, in the select on the 100 ms timer.
  \<^item> \<open>Returned\<close>: \<open>tail\<close> has returned.
\<close>

datatype tail_pc = NextTail | PollRollback | Iterating | DeliverMsg Message | Backoff | Returned

datatype tail_obs =
    TombAlive bool
  | Rollback ObjectId
  | NoRollback
  | IterInvalid
  | IterNext Message
  | IterTimeout
  | IterEnd
  | Delivered
  | Dying
  | TimerFired

record tail_state =
  lastId :: ObjectId
  pc :: tail_pc

text \<open>
  One step of \<open>tail\<close>; \<open>None\<close> when the observation cannot be made at that point.
  \<open>IterInvalid\<close> is the inner loop's test \<^verbatim>\<open>m.tomb.Alive() && iter.Err() == nil\<close> failing,
  \<open>IterNext msg\<close> is \<open>iter.Next\<close> giving \<open>msg\<close>, \<open>IterTimeout\<close> and \<open>IterEnd\<close> are \<open>iter.Next\<close>
  giving nothing with \<open>iter.Timeout()\<close> true and false.
\<close>

fun tail_step :: "tail_state \<Rightarrow> tail_obs \<Rightarrow> tail_state option" where
  "tail_step s (TombAlive b) =
     (if pc s = NextTail then Some (s\<lparr>pc := (if b then PollRollback else Returned)\<rparr>) else None)"
| "tail_step s (Rollback rollbackId) =
     (case pc s of
        PollRollback \<Rightarrow>
          Some (if rollbackId < lastId s then s\<lparr>lastId := rollbackId, pc := Iterating\<rparr>
                else s\<lparr>pc := Iterating\<rparr>)
      | DeliverMsg msg \<Rightarrow>
          Some (if rollbackId < lastId s then s\<lparr>lastId := rollbackId, pc := NextTail\<rparr>
                else s)
      | _ \<Rightarrow> None)"
| "tail_step s NoRollback =
     (if pc s = PollRollback then Some (s\<lparr>pc := Iterating\<rparr>) else None)"
| "tail_step s IterInvalid =
     (if pc s = Iterating then Some (s\<lparr>pc := Backoff\<rparr>) else None)"
| "tail_step s (IterNext msg) =
     (if pc s = Iterating then Some (s\<lparr>pc := DeliverMsg msg\<rparr>) else None)"
| "tail_step s IterTimeout =
     (if pc s = Iterating then Some s else None)"
| "tail_step s IterEnd =
     (if pc s = Iterating then Some (s\<lparr>pc := Backoff\<rparr>) else None)"
| "tail_step s Delivered =
     (case pc s of
        DeliverMsg msg \<Rightarrow> Some (s\<lparr>lastId := Id' msg, pc := Iterating\<rparr>)
      | _ \<Rightarrow> None)"
| "tail_step s Dying =
     (case pc s of
        DeliverMsg msg \<Rightarrow> Some (s\<lparr>pc := Returned\<rparr>)
      | Backoff \<Rightarrow> Some (s\<lparr>pc := Returned\<rparr>)
      | _ \<Rightarrow> None)"
| "tail_step s TimerFired =
     (if pc s = Backoff then Some (s\<lparr>pc := NextTail\<rparr>) else None)"

text \<open>A run of \<open>tail\<close> over a list of observations.\<close>

fun tail_run :: "tail_state \<Rightarrow> tail_obs list \<Rightarrow> tail_state option" where
  "tail_run s [] = Some s"
| "tail_run s (ob # obs) = (case tail_step s ob of None \<Rightarrow> None | Some s' \<Rightarrow> tail_run s' obs)"

subsection \<open>plugin.go: \<open>refreshPlugins\<close> and \<open>startPlugin\<close>\<close>

text \<open>
  \<^verbatim>\<open>!bytes.Equal(a.Config.Data, b.Config.Data) || !bytes.Equal(a.Targets.Data, b.Targets.Data)\<close>
\<close>

definition pluginChanged :: "pluginInfo \<Rightarrow> pluginInfo \<Rightarrow> bool" where
  "pluginChanged a b \<longleftrightarrow> Config a \<noteq> Config b \<or> Targets a \<noteq> Targets b"

text \<open>
  \<open>pluginOn\<close>, on \<open>m.config.Plugins\<close> (\<open>None\<close> is \<open>nil\<close>): the name itself, or the name
  followed by \<open>/\<close> and a label.
\<close>

definition pluginOn :: "string list option \<Rightarrow> string \<Rightarrow> bool" where
  "pluginOn cfg n =
     (case cfg of
        None \<Rightarrow> True
      | Some cnames \<Rightarrow>
          list_ex (\<lambda>cname. n = cname \<or>
              (length n > length cname \<and> n ! length cname = CHR ''/'' \<and> take (length cname) n = cname))
            cnames)"

text \<open>
  \<open>pluginKey\<close>: the name up to its first \<open>/\<close> (\<open>strings.Index\<close> and the slice
  \<open>pluginName[:i]\<close>), the whole name when it has none.
\<close>

definition pluginKey :: "string \<Rightarrow> string" where
  "pluginKey pluginName = takeWhile (\<lambda>c. c \<noteq> CHR ''/'') pluginName"

text \<open>
  \<open>startPlugin\<close>. Its local \<open>lastId\<close>, \<^verbatim>\<open>bson.NewObjectIdWithTime(time.Now().Add(-rollbackLimit))\<close>,
  depends on the clock and is the parameter \<open>limit\<close>: the id of the instant
  \<open>rollbackLimit\<close> (10 seconds) before now. The call \<open>spec.Start(plugger)\<close> is the effect
  \<open>StartPlugin\<close> its caller records.
\<close>

definition startPlugin :: "externals \<Rightarrow> ObjectId \<Rightarrow> pluginInfo \<Rightarrow> error + pluginState" where
  "startPlugin ext limit doc =
     (case registeredPlugins ext (pluginKey (Name doc)) of
        None \<Rightarrow> Inl (ErrNotRegistered (pluginKey (Name doc)))
      | Some sp \<Rightarrow>
          (let pl = \<lparr>PluggerName = Name doc, PluggerConfig = Config doc, PluggerTargets = Targets doc\<rparr>;
               st = \<lparr>info = doc, spec = sp, plugger = pl, plugin = Start sp pl\<rparr>
           in Inr (if \<not> Valid (LastId (info st)) \<or> LastId (info st) < limit
                   then st\<lparr>info := (info st)\<lparr>LastId := limit\<rparr>\<rparr>
                   else st)))"

text \<open>
  The variables of the first loop of \<open>refreshPlugins\<close>: \<open>m.plugins\<close>, \<open>seen\<close>, \<open>found\<close>,
  \<open>rollbackId\<close>, and the effects so far.
\<close>

record refresh_vars =
  r_plugins :: "(string \<times> pluginState) list"
  r_seen :: "string list"
  r_found :: nat
  r_rollbackId :: ObjectId
  r_effects :: "effect list"

text \<open>
  The end of the loop body, from \<^verbatim>\<open>state, err := m.startPlugin(info)\<close> on: \<open>continue\<close> on
  an error, else the update of the commands schema, \<^verbatim>\<open>m.plugins[info.Name] = state\<close> and
  the running minimum \<open>rollbackId\<close>.
\<close>

definition refresh_start :: "externals \<Rightarrow> ObjectId \<Rightarrow> refresh_vars \<Rightarrow> pluginInfo \<Rightarrow> refresh_vars" where
  "refresh_start ext limit v doc =
     (case startPlugin ext limit doc of
        Inl err \<Rightarrow> v
      | Inr st \<Rightarrow>
          v\<lparr>r_plugins := AList.update (Name doc) st (r_plugins v),
            r_rollbackId :=
              (if r_rollbackId v = '''' \<or> r_rollbackId v > LastId (info st)
               then LastId (info st) else r_rollbackId v),
            r_effects := r_effects v @ [StartPlugin (Name doc), UpdateCommands (Name doc)]\<rparr>)"

text \<open>The body of \<^verbatim>\<open>for i := range infos\<close>.\<close>

definition refresh_one ::
  "externals \<Rightarrow> string list option \<Rightarrow> ObjectId \<Rightarrow> refresh_vars \<Rightarrow> pluginInfo \<Rightarrow> refresh_vars" where
  "refresh_one ext cfg limit v doc =
     (if \<not> pluginOn cfg (Name doc) then v
      else
        (let v1 = v\<lparr>r_seen := Name doc # r_seen v\<rparr> in
         (case map_of (r_plugins v1) (Name doc) of
            Some st \<Rightarrow>
              (let v2 = v1\<lparr>r_found := r_found v1 + 1\<rparr> in
               if \<not> pluginChanged (info st) doc then v2
               else refresh_start ext limit
                      (v2\<lparr>r_plugins := AList.delete (Name doc) (r_plugins v2),
                          r_effects := r_effects v2 @ [StopPlugin (Name doc)]\<rparr>) doc)
          | None \<Rightarrow> refresh_start ext limit v1 doc)))"

text \<open>
  The second loop: the plugins that were not seen are stopped and removed, when
  \<open>known != found\<close>.
\<close>

definition refresh_remove :: "nat \<Rightarrow> refresh_vars \<Rightarrow> refresh_vars" where
  "refresh_remove known v =
     (if known \<noteq> r_found v then
        v\<lparr>r_plugins := filter (\<lambda>(n, st). n \<in> set (r_seen v)) (r_plugins v),
          r_effects := r_effects v @
            map (\<lambda>(n, st). StopPlugin n) (filter (\<lambda>(n, st). n \<notin> set (r_seen v)) (r_plugins v))\<rparr>
      else v)"

text \<open>
  \<open>refreshPlugins\<close>. \<open>limit\<close> is as in \<open>startPlugin\<close>. Two things are decided outside the
  manager and are parameters: \<open>inserted\<close>, whether the insert of the wake-up message into
  \<open>incoming\<close> succeeds, and \<open>sent\<close>, whether the final select takes the send on
  \<open>m.rollback\<close> rather than \<open>m.tomb.Dying()\<close>. The pass returns at once when the
  documents cannot be fetched.
\<close>

definition refreshPlugins ::
  "externals \<Rightarrow> ObjectId \<Rightarrow> bool \<Rightarrow> bool \<Rightarrow> pluginManager \<Rightarrow> pluginManager \<times> effect list" where
  "refreshPlugins ext limit inserted sent m =
     (if \<not> database_up m then (m, [])
      else
        (let infos = database_plugins m;
             known = length (plugins m);
             v0 = \<lparr>r_plugins = plugins m, r_seen = [], r_found = 0, r_rollbackId = '''',
                   r_effects = []\<rparr>;
             v = refresh_remove known (foldl (refresh_one ext (configPlugins m) limit) v0 infos);
             m' = m\<lparr>plugins := r_plugins v\<rparr>
         in if r_rollbackId v \<noteq> '''' then
              (if \<not> inserted then (m', r_effects v @ [InsertIncoming wakeMessage])
               else if sent then
                 (m', r_effects v @ [InsertIncoming wakeMessage, SendRollback (r_rollbackId v)])
               else (m', r_effects v @ [InsertIncoming wakeMessage]))
            else (m', r_effects v)))"

subsection \<open>The account manager: \<open>accountManager.loop\<close> and \<open>accountManager.tail\<close>\<close>

text \<open>
  The account manager is the second Go file held in \<open>plugger_test.go\<close>. Its messages carry
  the verb in a field \<open>Cmd\<close>, which is \<open>Command\<close> here. \<open>accountInfo\<close> is declared outside
  the sources; of a document of the collection \<open>accounts\<close> the code reads the name and
  writes \<open>lastid\<close>.
\<close>

record accountInfo =
  AccountName :: string
  AccountLastId :: ObjectId







text \<open>
  \<^verbatim>\<open>accounts.Update(bson.D{{"name", msg.Account}}, bson.D{{"$set", bson.D{{"lastid", lastId}}}})\<close>:
  the first document of that name is updated; \<open>None\<close> is the error \<open>ErrNotFound\<close>.
\<close>

fun Update_lastid :: "accountInfo list \<Rightarrow> string \<Rightarrow> ObjectId \<Rightarrow> accountInfo list option" where
  "Update_lastid [] n oid = None"
| "Update_lastid (d # ds) n oid =
     (if AccountName d = n then Some (d\<lparr>AccountLastId := oid\<rparr> # ds)
      else (case Update_lastid ds n oid of None \<Rightarrow> None | Some ds' \<Rightarrow> Some (d # ds')))"









subsection \<open>Notions the statements use\<close>

text \<open>
  Whether the loop dispatches \<open>msg\<close> to a plugin in state \<open>st\<close> (the negation of the test
  before \<open>continue\<close>), the state of the plugin after the message, and the effects of the
  plugin's turn.
\<close>

definition dispatches :: "externals \<Rightarrow> Message \<Rightarrow> pluginState \<Rightarrow> bool" where
  "dispatches ext msg st \<longleftrightarrow> LastId (info st) < Id' msg \<and> Target ext (plugger st) msg"

definition seen_msg :: "Message \<Rightarrow> pluginState \<Rightarrow> pluginState" where
  "seen_msg msg st = st\<lparr>info := (info st)\<lparr>LastId := Id' msg\<rparr>\<rparr>"

definition turn_effects :: "Message \<Rightarrow> string \<Rightarrow> string \<Rightarrow> pluginState \<Rightarrow> effect list" where
  "turn_effects msg cmdName n st =
     [SetLastId n (Id' msg), Handle n msg cmdName] @
     map (PluginCall n) (handle (seen_msg msg st) msg cmdName) @
     [UpdateLastId n (Id' msg)]"

text \<open>The id a plugin starts from, given the one its document holds.\<close>

definition start_position :: "ObjectId \<Rightarrow> ObjectId \<Rightarrow> ObjectId" where
  "start_position limit persisted =
     (if \<not> Valid persisted \<or> persisted < limit then limit else persisted)"


definition is_rollback_effect :: "effect \<Rightarrow> bool" where
  "is_rollback_effect e \<longleftrightarrow> (case e of InsertIncoming msg \<Rightarrow> True | SendRollback oid \<Rightarrow> True | _ \<Rightarrow> False)"

subsection \<open>Examples\<close>

text \<open>
  A plugin \<open>echo\<close> with one command, whose parser wants an argument after the command name;
  two ids, ten seconds apart and older; a message for the plugin; a manager running it.
\<close>

definition ex_parse :: schema_Command where
  "ex_parse botText =
     (if take 5 botText = ''echo '' then Inr (drop 5 botText)
      else Inl ''missing input for argument: text'')"

definition ex_plugin :: Stopper where
  "ex_plugin = \<lparr>isMessageHandler = True, isOutgoingHandler = False, isCommandHandler = True\<rparr>"

definition ex_spec :: PluginSpec where
  "ex_spec =
     \<lparr>SpecName = ''echo'', Help = ''Repeats the text.'', Start = (\<lambda>pl. ex_plugin),
      Commands = [''echo'' \<mapsto> ex_parse]\<rparr>"

definition ex_ext :: externals where
  "ex_ext =
     \<lparr>CommandName = takeWhile (\<lambda>c. c \<noteq> CHR '' ''),
      Target = (\<lambda>pl msg. PluggerTargets pl = Account msg),
      registeredPlugins = [''echo'' \<mapsto> ex_spec]\<rparr>"

definition id3 :: ObjectId where "id3 = ''000000000003''"
definition id5 :: ObjectId where "id5 = ''000000000005''"
definition id7 :: ObjectId where "id7 = ''000000000007''"
definition id9 :: ObjectId where "id9 = ''000000000009''"

definition ex_info :: pluginInfo where
  "ex_info = \<lparr>Name = ''echo'', LastId = id5, Config = ''{}'', Targets = ''one'', State = ''''\<rparr>"

definition ex_plugger :: Plugger where
  "ex_plugger = \<lparr>PluggerName = ''echo'', PluggerConfig = ''{}'', PluggerTargets = ''one''\<rparr>"

definition ex_state :: pluginState where
  "ex_state = \<lparr>info = ex_info, spec = ex_spec, plugger = ex_plugger, plugin = ex_plugin\<rparr>"

definition ex_msg :: Message where
  "ex_msg =
     \<lparr>Id' = id7, Account = ''one'', Command = ''PRIVMSG'', Text = ''mup: echo'',
      BotText = ''echo'', AsNick = ''mup''\<rparr>"

definition ex_manager :: pluginManager where
  "ex_manager =
     \<lparr>alive = True, configPlugins = None, plugins = [(''echo'', ex_state)],
      ldapConns = [''corp'' \<mapsto> \<lparr>Conn = Some 1\<rparr>],
      database_up = True, database_plugins = [ex_info]\<rparr>"

text \<open>
  What one document does in the first loop of \<open>refreshPlugins\<close>, given the running plugins
  \<open>P\<close> (a map from names to states): whether the plugin is stopped, whether it is
  started, and the effects.
\<close>

definition doc_stops :: "string list option \<Rightarrow> (string \<rightharpoonup> pluginState) \<Rightarrow> pluginInfo \<Rightarrow> bool" where
  "doc_stops cfg P doc \<longleftrightarrow>
     pluginOn cfg (Name doc) \<and>
     (case P (Name doc) of None \<Rightarrow> False | Some st \<Rightarrow> pluginChanged (info st) doc)"

definition doc_starts ::
  "externals \<Rightarrow> string list option \<Rightarrow> (string \<rightharpoonup> pluginState) \<Rightarrow> pluginInfo \<Rightarrow> bool" where
  "doc_starts ext cfg P doc \<longleftrightarrow>
     pluginOn cfg (Name doc) \<and>
     (case P (Name doc) of None \<Rightarrow> True | Some st \<Rightarrow> pluginChanged (info st) doc) \<and>
     registeredPlugins ext (pluginKey (Name doc)) \<noteq> None"

definition doc_effects ::
  "externals \<Rightarrow> string list option \<Rightarrow> (string \<rightharpoonup> pluginState) \<Rightarrow> pluginInfo \<Rightarrow> effect list" where
  "doc_effects ext cfg P doc =
     (if doc_stops cfg P doc then [StopPlugin (Name doc)] else []) @
     (if doc_starts ext cfg P doc then [StartPlugin (Name doc), UpdateCommands (Name doc)] else [])"


text \<open>The variables of \<open>refreshPlugins\<close> after its two loops.\<close>

definition refresh_loops :: "externals \<Rightarrow> ObjectId \<Rightarrow> pluginManager \<Rightarrow> refresh_vars" where
  "refresh_loops ext limit m =
     refresh_remove (length (plugins m))
       (foldl (refresh_one ext (configPlugins m) limit)
          \<lparr>r_plugins = plugins m, r_seen = [], r_found = 0, r_rollbackId = '''', r_effects = []\<rparr>
          (database_plugins m))"



definition ex_changed :: pluginManager where
  "ex_changed = ex_manager\<lparr>database_plugins := [ex_info\<lparr>Config := ''{k: 1}''\<rparr>]\<rparr>"




section \<open>Proofs\<close>

subsection \<open>\<open>EscapeFilter\<close>\<close>

lemma unat_byte_of: "unat (byte_of c) = of_char c"
proof -
  have "(of_char c :: 8 word) = of_nat (of_char c)" by (simp add: of_nat_of_char)
  then have "unat (of_char c :: 8 word) = (of_char c :: nat) mod 2 ^ 8"
    by (simp add: unat_of_nat)
  then show ?thesis by (simp add: byte_of_def)
qed


lemma byte_hi: "unat (drop_bit 4 (byte_of c)) = (of_char c :: nat) div 16"
proof -
  have "unat (drop_bit 4 (byte_of c)) = drop_bit 4 (unat (byte_of c))"
    by (rule unat_drop_bit_eq)
  also have "\<dots> = (of_char c :: nat) div 2 ^ 4"
    by (simp only: unat_byte_of drop_bit_eq_div)
  finally show ?thesis by simp
qed

lemma byte_lo: "unat (byte_of c AND 0xf) = (of_char c :: nat) mod 16"
proof -
  have m: "(0xf :: byte) = mask 4" by (simp add: mask_eq_exp_minus_1)
  have "unat (byte_of c AND mask 4) = unat (take_bit 4 (byte_of c))"
    by (simp only: take_bit_eq_mask)
  also have "\<dots> = take_bit 4 (unat (byte_of c))"
    by (simp add: unsigned_take_bit_eq)
  also have "\<dots> = (of_char c :: nat) mod 2 ^ 4"
    by (simp only: unat_byte_of take_bit_eq_mod)
  finally show ?thesis by (simp only: m) simp
qed

lemma below_16:
  assumes "n < (16::nat)"
  shows "n \<in> {0, 1, 2, 3, 4, 5, 6, 7, 8, 9, 10, 11, 12, 13, 14, 15}"
  using assms by (simp, arith)

lemma char_of_nat_eq: "n < 256 \<Longrightarrow> of_char c = (n::nat) \<Longrightarrow> char_of n = c"
  by (metis char_of_char)

lemma hex_nth: "n < 16 \<Longrightarrow> hex ! n = hex_digit n"
  by (drule below_16) (auto simp: hex_def hex_digit_def intro!: char_of_nat_eq [symmetric])

lemma mustEscape_special: "mustEscape c = special c"
proof -
  have a: "byte_of c > 0x7f \<longleftrightarrow> (of_char c :: nat) > 0x7f"
    by (simp add: word_less_nat_alt unat_byte_of)
  have b: "byte_of c = 0 \<longleftrightarrow> (of_char c :: nat) = 0"
    by (simp add: unat_eq_0 [symmetric] unat_byte_of)
  show ?thesis unfolding mustEscape_def special_def a b by auto
qed



lemma escaped_code:
  "escaped c = (if mustEscape c
     then [CHR 0x5C, hex ! unat (drop_bit 4 (byte_of c)), hex ! unat (byte_of c AND 0xf)]
     else [c])"
proof -
  have "(of_char c :: nat) < 256" by simp
  then have "(of_char c :: nat) div 16 < 16" by arith
  moreover have "(of_char c :: nat) mod 16 < 16" by simp
  ultimately show ?thesis
    by (simp add: escaped_def mustEscape_special byte_hi byte_lo hex_nth)
qed

lemma length_escaped: "length (escaped c) = (if mustEscape c then 3 else 1)"
  by (simp add: escaped_def mustEscape_special)

lemma length_escape_all:
  "length (escape_all s) = length s + 2 * length (filter mustEscape s)"
  by (induction s) (simp_all add: escape_all_def length_escaped)

lemma count_escape_eq:
  "count_escape flt i n = n + length (filter mustEscape (drop i flt))"
proof (induction flt i n rule: count_escape.induct)
  case (1 flt i escape)
  show ?case
  proof (cases "i < length flt")
    case True
    then have d: "drop i flt = flt ! i # drop (Suc i) flt"
      by (simp add: Cons_nth_drop_Suc)
    from True "1.IH" show ?thesis
      by (subst count_escape.simps) (simp add: d)
  next
    case False
    then show ?thesis by (subst count_escape.simps) simp
  qed
qed

lemma take_Suc_update: "j < length buf \<Longrightarrow> take (Suc j) (buf[j := v]) = take j buf @ [v]"
  by (simp add: take_Suc_conv_app_nth)

lemma hex_index_hi: "go_index hex (unat (drop_bit 4 (byte_of c))) = Some (hex ! unat (drop_bit 4 (byte_of c)))"
proof -
  have "(of_char c :: nat) < 256" by simp
  then have "(of_char c :: nat) div 16 < 16" by arith
  then show ?thesis by (simp add: go_index_def byte_hi hex_def)
qed

lemma hex_index_lo: "go_index hex (unat (byte_of c AND 0xf)) = Some (hex ! unat (byte_of c AND 0xf))"
  by (simp add: go_index_def byte_lo hex_def)

lemma escape_fill_eq:
  "j + length (escape_all (drop i flt)) \<le> length buf \<Longrightarrow>
   escape_fill flt i j buf =
     Some (take j buf @ escape_all (drop i flt) @ drop (j + length (escape_all (drop i flt))) buf)"
proof (induction flt i j buf rule: escape_fill.induct)
  case (1 flt i j buf)
  show ?case
  proof (cases "i < length flt")
    case False
    then show ?thesis
      by (subst escape_fill.simps) (simp add: escape_all_def)
  next
    case True
    then have d: "drop i flt = flt ! i # drop (Suc i) flt"
      by (simp add: Cons_nth_drop_Suc)
    let ?c = "flt ! i"
    let ?rest = "escape_all (drop (Suc i) flt)"
    show ?thesis
    proof (cases "mustEscape ?c")
      case False
      have e: "escape_all (drop i flt) = ?c # ?rest"
        using False by (simp add: d escape_all_def escaped_code)
      from "1.prems" have len: "j < length buf" "Suc j + length ?rest \<le> length buf"
        by (simp_all add: e)
      have st: "go_store buf j ?c = Some (buf[j := ?c])"
        using len by (simp add: go_store_def)
      have ih: "escape_fill flt (i + 1) (j + 1) (buf[j := ?c]) =
          Some (take (j + 1) (buf[j := ?c]) @ ?rest @ drop (j + 1 + length ?rest) (buf[j := ?c]))"
        using "1.IH"(2) [OF True refl False st] len by simp
      have tk: "take (j + 1) (buf[j := ?c]) = take j buf @ [?c]"
        using len take_Suc_update [of j buf ?c] by simp
      have dr: "drop (j + 1 + length ?rest) (buf[j := ?c]) = drop (j + 1 + length ?rest) buf"
        by simp
      have step: "escape_fill flt i j buf = escape_fill flt (i + 1) (j + 1) (buf[j := ?c])"
        using True False st
        by (subst escape_fill.simps) (simp add: Let_def)
      show ?thesis
        unfolding step ih tk dr e by simp
    next
      case esc: True
      let ?h1 = "hex ! unat (drop_bit 4 (byte_of ?c))"
      let ?h2 = "hex ! unat (byte_of ?c AND 0xf)"
      let ?b1 = "buf[j := CHR 0x5C]"
      let ?b2 = "?b1[j + 1 := ?h1]"
      let ?b3 = "?b2[j + 2 := ?h2]"
      have e: "escape_all (drop i flt) = CHR 0x5C # ?h1 # ?h2 # ?rest"
        using esc by (simp add: d escape_all_def escaped_code)
      from "1.prems" have len: "j + 2 < length buf" "j + 3 + length ?rest \<le> length buf"
        by (simp_all add: e)
      have s1: "go_store buf (j + 0) (CHR 0x5C) = Some ?b1"
        and s2: "go_store ?b1 (j + 1) ?h1 = Some ?b2"
        and s3: "go_store ?b2 (j + 2) ?h2 = Some ?b3"
        using len by (simp_all add: go_store_def)
      have tk: "take (j + 3) ?b3 = take j buf @ [CHR 0x5C, ?h1, ?h2]"
      proof -
        have "take (Suc (Suc (Suc j))) ?b3 = take (Suc (Suc j)) ?b2 @ [?h2]"
          using len take_Suc_update [of "Suc (Suc j)" ?b2 ?h2] by simp
        also have "take (Suc (Suc j)) ?b2 = take (Suc j) ?b1 @ [?h1]"
          using len take_Suc_update [of "Suc j" ?b1 ?h1] by simp
        also have "take (Suc j) ?b1 = take j buf @ [CHR 0x5C]"
          using len take_Suc_update [of j buf] by simp
        finally show ?thesis by (simp add: numeral_3_eq_3)
      qed
      have ih: "escape_fill flt (i + 1) (j + 3) ?b3 =
          Some (take (j + 3) ?b3 @ ?rest @ drop (j + 3 + length ?rest) ?b3)"
        using "1.IH"(1) [OF True refl esc s1 hex_index_hi s2 hex_index_lo s3] len by simp
      have dr: "drop (j + 3 + length ?rest) ?b3 = drop (j + 3 + length ?rest) buf"
        by simp
      have step: "escape_fill flt i j buf = escape_fill flt (i + 1) (j + 3) ?b3"
        using True esc s1 s2 s3
        by (subst escape_fill.simps) (simp add: hex_index_hi hex_index_lo Let_def)
      show ?thesis
        unfolding step ih tk dr e by (simp add: eval_nat_numeral)
    qed
  qed
qed

lemma filter_mustEscape_empty:
  "length (filter mustEscape s) = 0 \<longleftrightarrow> (\<forall>c\<in>set s. \<not> mustEscape c)"
  by (simp add: filter_empty_conv)

lemma escape_all_id: "\<forall>c\<in>set s. \<not> mustEscape c \<Longrightarrow> escape_all s = s"
  by (induction s) (simp_all add: escape_all_def escaped_def mustEscape_special)

lemma EscapeFilter_eq:
  "EscapeFilter s = Some (escape_all s)"
proof (cases "length (filter mustEscape s) = 0")
  case True
  then have "escape_all s = s"
    by (simp add: escape_all_id filter_empty_conv)
  with True show ?thesis
    by (simp add: EscapeFilter_def count_escape_eq)
next
  case False
  let ?n = "length s + length (filter mustEscape s) * 2"
  have "escape_fill s 0 0 (replicate ?n (CHR 0x00)) = Some (escape_all s)"
    using escape_fill_eq [of 0 0 s "replicate ?n (CHR 0x00)"]
    by (simp add: length_escape_all)
  with False show ?thesis
    by (simp add: EscapeFilter_def count_escape_eq Let_def)
qed

text \<open>
  C10. For every string \<open>s\<close>, \<open>EscapeFilter s\<close> returns (it never panics), and
  its result is \<open>s\<close> with exactly the bytes \<open>c > 0x7f\<close>, \<open>c = 0\<close> and the four
  bytes \<open>( ) \ *\<close> replaced by a backslash and the two lowercase hexadecimal digits
  of \<open>c\<close>, every other byte kept in its place; its length is the length of \<open>s\<close> plus
  twice the number of replaced bytes; it is \<open>s\<close> itself when no byte is replaced.
\<close>

theorem EscapeFilter_escapes:
  "EscapeFilter s = Some (concat (map escaped s)) \<and>
   length (concat (map escaped s)) = length s + 2 * length (filter special s) \<and>
   ((\<forall>c\<in>set s. \<not> special c) \<longrightarrow> EscapeFilter s = Some s)"
proof -
  have sp: "filter special s = filter mustEscape s"
    by (rule filter_cong) (simp_all add: mustEscape_special)
  have "EscapeFilter s = Some (concat (map escaped s))"
    using EscapeFilter_eq [of s] by (simp add: escape_all_def)
  moreover have "length (concat (map escaped s)) = length s + 2 * length (filter special s)"
    using length_escape_all [of s] by (simp add: escape_all_def sp)
  moreover have "(\<forall>c\<in>set s. \<not> special c) \<longrightarrow> EscapeFilter s = Some s"
    using EscapeFilter_eq [of s] escape_all_id [of s] by (simp add: mustEscape_special)
  ultimately show ?thesis by blast
qed

theorem EscapeFilter_escapes_witness:
  "EscapeFilter ''(cn=a*)'' = Some [CHR 0x5C, CHR ''2'', CHR ''8'', CHR ''c'', CHR ''n'', CHR ''='',
      CHR ''a'', CHR 0x5C, CHR ''2'', CHR ''a'', CHR 0x5C, CHR ''2'', CHR ''9''] \<and>
   EscapeFilter ''admin'' = Some ''admin''"
  using EscapeFilter_escapes [of "''(cn=a*)''"] EscapeFilter_escapes [of "''admin''"]
  by (simp add: escaped_def special_def hex_nth [symmetric] hex_def)

subsection \<open>The tail loop and rollback requests\<close>

text \<open>
  C1. A rollback request \<open>R\<close> can be observed at two points of the tail loop, before a new
  tail iterator is opened and while a message is being delivered. Wherever it is
  observed, the tail position afterwards is the minimum of \<open>R\<close> and the position before:
  it is never raised, and it changes exactly when \<open>R\<close> is strictly older. While
  delivering, a request that is not older leaves the state as it is (the delivery of the
  same message resumes), and an older one abandons the delivery and restarts the tail;
  before an iterator is opened the loop goes on to open it in either case.
\<close>

theorem tail_rollback_min:
  "(tail_step s (Rollback R) \<noteq> None \<longleftrightarrow> pc s = PollRollback \<or> (\<exists>msg. pc s = DeliverMsg msg)) \<and>
   (\<forall>s'. tail_step s (Rollback R) = Some s' \<longrightarrow>
      lastId s' = min R (lastId s) \<and>
      lastId s' \<le> lastId s \<and>
      (lastId s' \<noteq> lastId s \<longleftrightarrow> R < lastId s) \<and>
      (pc s = PollRollback \<longrightarrow> pc s' = Iterating) \<and>
      ((\<exists>msg. pc s = DeliverMsg msg) \<and> \<not> R < lastId s \<longrightarrow> s' = s) \<and>
      ((\<exists>msg. pc s = DeliverMsg msg) \<and> R < lastId s \<longrightarrow> pc s' = NextTail))"
proof (cases "pc s")
  case (DeliverMsg msg)
  then show ?thesis by (auto simp: min_def)
next
  case PollRollback
  then show ?thesis by (auto simp: min_def)
qed simp_all

theorem tail_rollback_min_witness:
  "tail_step \<lparr>lastId = id5, pc = DeliverMsg ex_msg\<rparr> (Rollback id3) = Some \<lparr>lastId = id3, pc = NextTail\<rparr> \<and>
   min id3 id5 = id3 \<and>
   tail_step \<lparr>lastId = id5, pc = DeliverMsg ex_msg\<rparr> (Rollback id7) =
     Some \<lparr>lastId = id5, pc = DeliverMsg ex_msg\<rparr> \<and>
   min id7 id5 = id5 \<and>
   tail_step \<lparr>lastId = id5, pc = PollRollback\<rparr> (Rollback id3) = Some \<lparr>lastId = id3, pc = Iterating\<rparr>"
  using tail_rollback_min [of "\<lparr>lastId = id5, pc = DeliverMsg ex_msg\<rparr>" id3]
    tail_rollback_min [of "\<lparr>lastId = id5, pc = DeliverMsg ex_msg\<rparr>" id7]
  by (simp add: id3_def id5_def id7_def)

subsection \<open>The dispatch of an incoming message\<close>

lemma loop_plugins_eq:
  "loop_plugins ext up msg cmdName ps coll = (ps', coll', effs) \<Longrightarrow>
     ps' = map (\<lambda>(n, st). (n, if dispatches ext msg st then seen_msg msg st else st)) ps \<and>
     effs = concat (map (\<lambda>(n, st). if dispatches ext msg st then turn_effects msg cmdName n st else []) ps)"
proof (induction ps arbitrary: coll ps' coll' effs)
  case Nil
  then show ?case by simp
next
  case (Cons p ps)
  obtain n st where p: "p = (n, st)" by (cases p)
  show ?case
  proof (cases "dispatches ext msg st")
    case False
    then have skip: "LastId (info st) \<ge> Id' msg \<or> \<not> Target ext (plugger st) msg"
      by (auto simp: dispatches_def)
    obtain r c e where rec: "loop_plugins ext up msg cmdName ps coll = (r, c, e)"
      by (cases "loop_plugins ext up msg cmdName ps coll")
    from Cons.prems skip rec have "ps' = (n, st) # r" "effs = e"
      by (simp_all add: p)
    with Cons.IH [OF rec] False show ?thesis by (simp add: p)
  next
    case True
    then have go: "\<not> (LastId (info st) \<ge> Id' msg \<or> \<not> Target ext (plugger st) msg)"
      by (auto simp: dispatches_def)
    let ?coll1 = "case UpdateId_lastid up coll n (Id' msg) of None \<Rightarrow> coll | Some c \<Rightarrow> c"
    obtain r c e where rec: "loop_plugins ext up msg cmdName ps ?coll1 = (r, c, e)"
      by (cases "loop_plugins ext up msg cmdName ps ?coll1")
    from Cons.prems go rec
    have "ps' = (n, seen_msg msg st) # r" "effs = turn_effects msg cmdName n st @ e"
      by (simp_all add: p Let_def seen_msg_def turn_effects_def)
    with Cons.IH [OF rec] True show ?thesis by (simp add: p)
  qed
qed

lemma loop_incoming_eq:
  assumes "Command msg \<noteq> cmdPong" and "loop_incoming ext m msg = (m', effs)"
  shows "plugins m' =
           map (\<lambda>(n, st). (n, if dispatches ext msg st then seen_msg msg st else st)) (plugins m)"
    and "effs = concat (map (\<lambda>(n, st).
           if dispatches ext msg st then turn_effects msg (CommandName ext (BotText msg)) n st else [])
           (plugins m))"
proof -
  let ?cn = "CommandName ext (BotText msg)"
  obtain ps coll e where
    rec: "loop_plugins ext (database_up m) msg ?cn (plugins m) (database_plugins m) = (ps, coll, e)"
    by (cases "loop_plugins ext (database_up m) msg ?cn (plugins m) (database_plugins m)")
  from assms rec have "m' = m\<lparr>plugins := ps, database_plugins := coll\<rparr>" "effs = e"
    by (simp_all add: loop_incoming_def Let_def)
  with loop_plugins_eq [OF rec]
  show "plugins m' =
           map (\<lambda>(n, st). (n, if dispatches ext msg st then seen_msg msg st else st)) (plugins m)"
    and "effs = concat (map (\<lambda>(n, st).
           if dispatches ext msg st then turn_effects msg ?cn n st else []) (plugins m))"
    by simp_all
qed

lemma turn_effects_plugin: "e \<in> set (turn_effects msg cmdName n st) \<Longrightarrow> effect_plugin e = Some n"
  by (auto simp: turn_effects_def)

lemma Handle_in_turn_effects:
  "Handle n' msg' c' \<in> set (turn_effects msg cmdName n st) \<longleftrightarrow> n' = n \<and> msg' = msg \<and> c' = cmdName"
  by (auto simp: turn_effects_def)

lemma map_of_map_entry:
  "distinct (map fst ps) \<Longrightarrow> (n, st) \<in> set ps \<Longrightarrow>
     map_of (map (\<lambda>(k, v). (k, f v)) ps) n = Some (f st)"
  by (induction ps) (auto simp: rev_image_eqI)

lemma split_entry:
  "distinct (map fst ps) \<Longrightarrow> (n, st) \<in> set ps \<Longrightarrow>
     \<exists>xs ys. ps = xs @ (n, st) # ys \<and> n \<notin> fst ` set xs \<and> n \<notin> fst ` set ys"
proof -
  assume d: "distinct (map fst ps)" and i: "(n, st) \<in> set ps"
  from i obtain xs ys where ps: "ps = xs @ (n, st) # ys"
    by (auto simp: in_set_conv_decomp)
  with d have "n \<notin> fst ` set xs" "n \<notin> fst ` set ys" by auto
  with ps show ?thesis by blast
qed

lemma others_effects:
  "n \<notin> fst ` set ps \<Longrightarrow>
     \<forall>e\<in>set (concat (map (\<lambda>(k, st). if P st then turn_effects msg cmdName k st else []) ps)).
        effect_plugin e \<noteq> Some n"
  by (induction ps) (auto dest: turn_effects_plugin)

text \<open>
  C2, amended. For a message whose command is not the pong marker and for every plugin of
  the manager: the message is dispatched to the plugin (its \<open>handle\<close> is called) if and
  only if the id of the message is strictly greater than the plugin's \<open>LastId\<close> and the
  plugin's target matches the message. A plugin that fails either test has no effect in
  the step and keeps its state, \<open>LastId\<close> included; one that passes both has \<open>LastId\<close> set to
  the id of the message.
\<close>

theorem dispatch_iff:
  assumes "Command msg \<noteq> cmdPong"
    and "distinct (map fst (plugins m))"
    and "(n, st) \<in> set (plugins m)"
    and "loop_incoming ext m msg = (m', effs)"
  shows "(Handle n msg (CommandName ext (BotText msg)) \<in> set effs \<longleftrightarrow>
            LastId (info st) < Id' msg \<and> Target ext (plugger st) msg) \<and>
         (\<not> (LastId (info st) < Id' msg \<and> Target ext (plugger st) msg) \<longrightarrow>
            map_of (plugins m') n = Some st \<and> (\<forall>e\<in>set effs. effect_plugin e \<noteq> Some n)) \<and>
         (LastId (info st) < Id' msg \<and> Target ext (plugger st) msg \<longrightarrow>
            map_of (plugins m') n = Some (st\<lparr>info := (info st)\<lparr>LastId := Id' msg\<rparr>\<rparr>))"
proof -
  let ?cn = "CommandName ext (BotText msg)"
  let ?f = "\<lambda>(k, s). if dispatches ext msg s then turn_effects msg ?cn k s else []"
  note eq = loop_incoming_eq [OF assms(1) assms(4)]
  from split_entry [OF assms(2) assms(3)] obtain xs ys where
    ps: "plugins m = xs @ (n, st) # ys" and nx: "n \<notin> fst ` set xs" and ny: "n \<notin> fst ` set ys"
    by blast
  have effs: "effs = concat (map ?f xs) @ ?f (n, st) @ concat (map ?f ys)"
    using eq(2) by (simp add: ps)
  have ox: "\<forall>e\<in>set (concat (map ?f xs)). effect_plugin e \<noteq> Some n"
    using others_effects [OF nx] by simp
  have oy: "\<forall>e\<in>set (concat (map ?f ys)). effect_plugin e \<noteq> Some n"
    using others_effects [OF ny] by simp
  have st': "map_of (plugins m') n = Some (if dispatches ext msg st then seen_msg msg st else st)"
    using map_of_map_entry [OF assms(2) assms(3), of "\<lambda>s. if dispatches ext msg s then seen_msg msg s else s"]
    by (simp add: eq(1))
  have h: "Handle n msg ?cn \<in> set effs \<longleftrightarrow> dispatches ext msg st"
  proof
    assume "Handle n msg ?cn \<in> set effs"
    then have "Handle n msg ?cn \<in> set (?f (n, st))"
      using ox oy unfolding effs by fastforce
    then show "dispatches ext msg st" by (simp split: if_splits)
  next
    assume "dispatches ext msg st"
    then show "Handle n msg ?cn \<in> set effs"
      unfolding effs by (simp add: Handle_in_turn_effects)
  qed
  have skip: "\<not> dispatches ext msg st \<Longrightarrow> \<forall>e\<in>set effs. effect_plugin e \<noteq> Some n"
    using ox oy unfolding effs by auto
  show ?thesis
    using h st' skip by (auto simp: dispatches_def seen_msg_def)
qed

theorem dispatch_iff_witness:
  "Handle ''echo'' ex_msg ''echo'' \<in> set (snd (loop_incoming ex_ext ex_manager ex_msg)) \<and>
   LastId (info ex_state) < Id' ex_msg \<and> Target ex_ext (plugger ex_state) ex_msg \<and>
   map_of (plugins (fst (loop_incoming ex_ext ex_manager ex_msg))) ''echo'' =
     Some (ex_state\<lparr>info := ex_info\<lparr>LastId := id7\<rparr>\<rparr>)"
  using dispatch_iff [of ex_msg ex_manager "''echo''" ex_state ex_ext
      "fst (loop_incoming ex_ext ex_manager ex_msg)" "snd (loop_incoming ex_ext ex_manager ex_msg)"]
  by (simp add: ex_msg_def ex_manager_def ex_state_def ex_info_def ex_ext_def ex_plugger_def
      cmdPong_def id5_def id7_def)

text \<open>
  As the specification states it, C2 fails for a pong: a pong for the account of the plugin with an id
  newer than the plugin's \<open>LastId\<close> passes both tests and is not dispatched.
\<close>

theorem dispatch_iff_counterexample:
  "LastId (info ex_state) < Id' (ex_msg\<lparr>Command := cmdPong\<rparr>) \<and>
   Target ex_ext (plugger ex_state) (ex_msg\<lparr>Command := cmdPong\<rparr>) \<and>
   (''echo'', ex_state) \<in> set (plugins ex_manager) \<and>
   loop_incoming ex_ext ex_manager (ex_msg\<lparr>Command := cmdPong\<rparr>) = (ex_manager, [])"
  by (simp add: loop_incoming_def ex_msg_def ex_manager_def ex_state_def ex_info_def ex_ext_def
      ex_plugger_def id5_def id7_def)

text \<open>
  C7, amended. When a message is dispatched to a plugin, the plugin's \<open>LastId\<close> is set to
  the id of the message in memory before \<open>handle\<close> is called; the message, command and
  outgoing handlers run next; the update of \<open>lastid\<close> in the plugin's stored document
  comes after they have returned, and it is the last thing done for the plugin.
  Afterwards the plugin's \<open>LastId\<close> is the id of the message.
\<close>

theorem dispatch_order:
  assumes "Command msg \<noteq> cmdPong"
    and "distinct (map fst (plugins m))"
    and "(n, st) \<in> set (plugins m)"
    and "LastId (info st) < Id' msg" and "Target ext (plugger st) msg"
    and "loop_incoming ext m msg = (m', effs)"
  shows "\<exists>before after.
           effs = before @
             [SetLastId n (Id' msg), Handle n msg (CommandName ext (BotText msg))] @
             map (PluginCall n)
               (handle (st\<lparr>info := (info st)\<lparr>LastId := Id' msg\<rparr>\<rparr>) msg (CommandName ext (BotText msg))) @
             [UpdateLastId n (Id' msg)] @ after \<and>
           (\<forall>e\<in>set before \<union> set after. effect_plugin e \<noteq> Some n) \<and>
           map_of (plugins m') n = Some (st\<lparr>info := (info st)\<lparr>LastId := Id' msg\<rparr>\<rparr>)"
proof -
  let ?cn = "CommandName ext (BotText msg)"
  let ?f = "\<lambda>(k, s). if dispatches ext msg s then turn_effects msg ?cn k s else []"
  note eq = loop_incoming_eq [OF assms(1) assms(6)]
  have d: "dispatches ext msg st" using assms(4,5) by (simp add: dispatches_def)
  from split_entry [OF assms(2) assms(3)] obtain xs ys where
    ps: "plugins m = xs @ (n, st) # ys" and nx: "n \<notin> fst ` set xs" and ny: "n \<notin> fst ` set ys"
    by blast
  have effs: "effs = concat (map ?f xs) @ turn_effects msg ?cn n st @ concat (map ?f ys)"
    using eq(2) d by (simp add: ps)
  have ox: "\<forall>e\<in>set (concat (map ?f xs)). effect_plugin e \<noteq> Some n"
    using others_effects [OF nx] by simp
  have oy: "\<forall>e\<in>set (concat (map ?f ys)). effect_plugin e \<noteq> Some n"
    using others_effects [OF ny] by simp
  have st': "map_of (plugins m') n = Some (seen_msg msg st)"
    using map_of_map_entry [OF assms(2) assms(3), of "\<lambda>s. if dispatches ext msg s then seen_msg msg s else s"] d
    by (simp add: eq(1))
  have e1: "effs = concat (map ?f xs) @
      [SetLastId n (Id' msg), Handle n msg ?cn] @
      map (PluginCall n) (handle (st\<lparr>info := (info st)\<lparr>LastId := Id' msg\<rparr>\<rparr>) msg ?cn) @
      [UpdateLastId n (Id' msg)] @ concat (map ?f ys)"
    unfolding effs by (simp add: turn_effects_def seen_msg_def)
  have e2: "\<forall>e\<in>set (concat (map ?f xs)) \<union> set (concat (map ?f ys)). effect_plugin e \<noteq> Some n"
    using ox oy by blast
  have e3: "map_of (plugins m') n = Some (st\<lparr>info := (info st)\<lparr>LastId := Id' msg\<rparr>\<rparr>)"
    using st' by (simp add: seen_msg_def)
  from e1 e2 e3 show ?thesis by blast
qed

theorem dispatch_order_witness:
  "snd (loop_incoming ex_ext ex_manager (ex_msg\<lparr>BotText := ''echo hi''\<rparr>)) =
     [SetLastId ''echo'' id7,
      Handle ''echo'' (ex_msg\<lparr>BotText := ''echo hi''\<rparr>) ''echo'',
      PluginCall ''echo'' (SchemaParse ''echo'' ''echo hi'' (Inr ''hi'')),
      PluginCall ''echo'' (HandleCommand
        \<lparr>cmd_msg = ex_msg\<lparr>BotText := ''echo hi''\<rparr>, cmd_name = ''echo'', cmd_args = ''hi''\<rparr>),
      PluginCall ''echo'' (HandleMessage (ex_msg\<lparr>BotText := ''echo hi''\<rparr>)),
      UpdateLastId ''echo'' id7] \<and>
   map (LastId) (database_plugins (fst (loop_incoming ex_ext ex_manager (ex_msg\<lparr>BotText := ''echo hi''\<rparr>)))) = [id7]"
  using dispatch_order [of "ex_msg\<lparr>BotText := ''echo hi''\<rparr>" ex_manager "''echo''" ex_state ex_ext
      "fst (loop_incoming ex_ext ex_manager (ex_msg\<lparr>BotText := ''echo hi''\<rparr>))"
      "snd (loop_incoming ex_ext ex_manager (ex_msg\<lparr>BotText := ''echo hi''\<rparr>))"]
  by (simp add: loop_incoming_def Let_def UpdateId_lastid_def handle_def handleCommand_def
      handleMessage_def ex_parse_def ex_spec_def ex_plugin_def
      ex_msg_def ex_manager_def ex_state_def ex_info_def ex_ext_def ex_plugger_def
      cmdPong_def id5_def id7_def)

text \<open>
  As the specification states it, C7 fails: in the step below the message handler of the plugin is
  called before \<open>lastid\<close> is written to the plugin's document.
\<close>

theorem dispatch_order_counterexample:
  "snd (loop_incoming ex_ext ex_manager ex_msg) =
     [SetLastId ''echo'' id7, Handle ''echo'' ex_msg ''echo'',
      PluginCall ''echo'' (SchemaParse ''echo'' ''echo'' (Inl ''missing input for argument: text'')),
      PluginCall ''echo'' (Sendf ex_msg ''Oops: missing input for argument: text''),
      PluginCall ''echo'' (HandleMessage ex_msg),
      UpdateLastId ''echo'' id7]"
  by (simp add: loop_incoming_def Let_def UpdateId_lastid_def handle_def handleCommand_def
      handleMessage_def ex_parse_def ex_spec_def ex_plugin_def
      ex_msg_def ex_manager_def ex_state_def ex_info_def ex_ext_def ex_plugger_def
      cmdPong_def id5_def id7_def)

subsection \<open>Command parse errors\<close>







subsection \<open>LDAP connections\<close>




subsection \<open>The refresh of the plugins\<close>

lemma startPlugin_registered:
  "registeredPlugins ext (pluginKey (Name doc)) = Some sp \<Longrightarrow>
     startPlugin ext limit doc =
       Inr \<lparr>info = doc\<lparr>LastId := start_position limit (LastId doc)\<rparr>, spec = sp,
            plugger = \<lparr>PluggerName = Name doc, PluggerConfig = Config doc, PluggerTargets = Targets doc\<rparr>,
            plugin = Start sp
              \<lparr>PluggerName = Name doc, PluggerConfig = Config doc, PluggerTargets = Targets doc\<rparr>\<rparr>"
  by (simp add: startPlugin_def start_position_def Let_def)

lemma startPlugin_unregistered:
  "registeredPlugins ext (pluginKey (Name doc)) = None \<Longrightarrow>
     startPlugin ext limit doc = Inl (ErrNotRegistered (pluginKey (Name doc)))"
  by (simp add: startPlugin_def)

lemma refresh_start_effects:
  "r_effects (refresh_start ext limit v doc) =
     r_effects v @
     (if registeredPlugins ext (pluginKey (Name doc)) \<noteq> None
      then [StartPlugin (Name doc), UpdateCommands (Name doc)] else [])"
  by (cases "registeredPlugins ext (pluginKey (Name doc))")
    (simp_all add: refresh_start_def startPlugin_registered startPlugin_unregistered)


lemma refresh_start_plugins:
  "map_of (r_plugins (refresh_start ext limit v doc)) =
     (case startPlugin ext limit doc of
        Inl e \<Rightarrow> map_of (r_plugins v)
      | Inr st \<Rightarrow> (map_of (r_plugins v))(Name doc \<mapsto> st))"
  by (simp add: refresh_start_def update_conv' split: sum.splits)

lemma refresh_start_seen:
  "r_seen (refresh_start ext limit v doc) = r_seen v"
  "r_found (refresh_start ext limit v doc) = r_found v"
  by (simp_all add: refresh_start_def split: sum.splits)

lemma refresh_one_effects:
  "r_effects (refresh_one ext cfg limit v doc) =
     r_effects v @ doc_effects ext cfg (map_of (r_plugins v)) doc"
  by (simp add: refresh_one_def Let_def doc_effects_def doc_stops_def doc_starts_def
      refresh_start_effects split: option.splits)


lemma refresh_one_other:
  "n \<noteq> Name doc \<Longrightarrow>
     map_of (r_plugins (refresh_one ext cfg limit v doc)) n = map_of (r_plugins v) n"
  by (simp add: refresh_one_def Let_def refresh_start_plugins delete_conv'
      split: option.splits sum.splits)

lemma refresh_one_self:
  "doc_starts ext cfg (map_of (r_plugins v)) doc \<Longrightarrow>
     registeredPlugins ext (pluginKey (Name doc)) = Some sp \<Longrightarrow>
     startPlugin ext limit doc = Inr st \<Longrightarrow>
     map_of (r_plugins (refresh_one ext cfg limit v doc)) (Name doc) = Some st"
  by (simp add: refresh_one_def Let_def refresh_start_plugins doc_starts_def
      split: option.splits)

lemma refresh_one_seen:
  "set (r_seen (refresh_one ext cfg limit v doc)) =
     set (r_seen v) \<union> (if pluginOn cfg (Name doc) then {Name doc} else {})"
  by (auto simp: refresh_one_def Let_def refresh_start_seen split: option.splits)

lemma doc_effects_cong:
  "P (Name doc) = Q (Name doc) \<Longrightarrow> doc_effects ext cfg P doc = doc_effects ext cfg Q doc"
  by (simp add: doc_effects_def doc_stops_def doc_starts_def)

lemma doc_starts_cong:
  "P (Name doc) = Q (Name doc) \<Longrightarrow> doc_starts ext cfg P doc = doc_starts ext cfg Q doc"
  by (simp add: doc_starts_def)

lemma distinct_map_Cons_neq:
  "distinct (map f (x # xs)) \<Longrightarrow> y \<in> set xs \<Longrightarrow> f y \<noteq> f x"
  by (auto simp: image_iff)

lemma refresh_loop_other:
  "n \<notin> Name ` set infos \<Longrightarrow>
     map_of (r_plugins (foldl (refresh_one ext cfg limit) v infos)) n = map_of (r_plugins v) n"
  by (induction infos arbitrary: v) (simp_all add: refresh_one_other)

lemma refresh_loop_effects:
  "distinct (map Name infos) \<Longrightarrow>
     r_effects (foldl (refresh_one ext cfg limit) v infos) =
       r_effects v @ concat (map (doc_effects ext cfg (map_of (r_plugins v))) infos)"
proof (induction infos arbitrary: v)
  case Nil
  then show ?case by simp
next
  case (Cons doc infos)
  let ?v1 = "refresh_one ext cfg limit v doc"
  have "map (doc_effects ext cfg (map_of (r_plugins ?v1))) infos =
        map (doc_effects ext cfg (map_of (r_plugins v))) infos"
  proof (rule map_cong [OF refl])
    fix d assume "d \<in> set infos"
    with Cons.prems have "Name d \<noteq> Name doc" by (intro distinct_map_Cons_neq)
    then show "doc_effects ext cfg (map_of (r_plugins ?v1)) d = doc_effects ext cfg (map_of (r_plugins v)) d"
      by (intro doc_effects_cong refresh_one_other)
  qed
  with Cons.IH [of ?v1] Cons.prems show ?case
    by (simp add: refresh_one_effects)
qed


lemma refresh_loop_seen:
  "set (r_seen (foldl (refresh_one ext cfg limit) v infos)) =
     set (r_seen v) \<union> {Name d |d. d \<in> set infos \<and> pluginOn cfg (Name d)}"
  by (induction infos arbitrary: v) (auto simp: refresh_one_seen split: if_splits)

lemma refresh_loop_self:
  assumes "distinct (map Name infos)" and "doc \<in> set infos"
    and "doc_starts ext cfg (map_of (r_plugins v)) doc"
    and "registeredPlugins ext (pluginKey (Name doc)) = Some sp"
    and "startPlugin ext limit doc = Inr st"
  shows "map_of (r_plugins (foldl (refresh_one ext cfg limit) v infos)) (Name doc) = Some st"
  using assms
proof (induction infos arbitrary: v)
  case Nil
  then show ?case by simp
next
  case (Cons d infos)
  let ?v1 = "refresh_one ext cfg limit v d"
  show ?case
  proof (cases "d = doc")
    case True
    with Cons.prems have "Name doc \<notin> Name ` set infos" by auto
    then have "map_of (r_plugins (foldl (refresh_one ext cfg limit) ?v1 infos)) (Name doc) =
        map_of (r_plugins ?v1) (Name doc)"
      by (rule refresh_loop_other)
    with True Cons.prems show ?thesis
      by (simp add: refresh_one_self)
  next
    case False
    with Cons.prems have in_rest: "doc \<in> set infos" by auto
    with Cons.prems(1) have ne: "Name doc \<noteq> Name d" by (intro distinct_map_Cons_neq)
    have "map_of (r_plugins ?v1) (Name doc) = map_of (r_plugins v) (Name doc)"
      using ne by (rule refresh_one_other)
    then have "doc_starts ext cfg (map_of (r_plugins ?v1)) doc =
        doc_starts ext cfg (map_of (r_plugins v)) doc"
      by (rule doc_starts_cong)
    with Cons.prems(3) have "doc_starts ext cfg (map_of (r_plugins ?v1)) doc"
      by simp
    with Cons.IH [of ?v1] Cons.prems in_rest show ?thesis by simp
  qed
qed


lemma refresh_remove_effects:
  "\<exists>stops. r_effects (refresh_remove known v) = r_effects v @ stops \<and>
     (\<forall>e\<in>set stops. \<exists>k. e = StopPlugin k \<and> k \<notin> set (r_seen v))"
  by (auto simp: refresh_remove_def)

lemma map_of_filter_key:
  "P n \<Longrightarrow> map_of (filter (\<lambda>(k, v). P k) ps) n = map_of ps n"
  by (induction ps) auto

lemma refresh_remove_plugins:
  "n \<in> set (r_seen v) \<Longrightarrow> map_of (r_plugins (refresh_remove known v)) n = map_of (r_plugins v) n"
  using map_of_filter_key [of "\<lambda>k. k \<in> set (r_seen v)" n "r_plugins v"]
  by (simp add: refresh_remove_def)

lemma refreshPlugins_eq:
  "database_up m \<Longrightarrow>
     refreshPlugins ext limit inserted sent m =
       (m\<lparr>plugins := r_plugins (refresh_loops ext limit m)\<rparr>,
        r_effects (refresh_loops ext limit m) @
        (if r_rollbackId (refresh_loops ext limit m) \<noteq> ''''
         then InsertIncoming wakeMessage #
              (if inserted \<and> sent then [SendRollback (r_rollbackId (refresh_loops ext limit m))] else [])
         else []))"
  by (simp add: refreshPlugins_def refresh_loops_def Let_def)

lemma doc_effects_plugin:
  "e \<in> set (doc_effects ext cfg P d) \<Longrightarrow> effect_plugin e = Some (Name d)"
  by (auto simp: doc_effects_def split: if_splits)

lemma doc_effects_not_rollback:
  "e \<in> set (doc_effects ext cfg P d) \<Longrightarrow> \<not> is_rollback_effect e"
  by (auto simp: doc_effects_def is_rollback_effect_def split: if_splits)


lemma refresh_loops_effects:
  assumes "distinct (map Name (database_plugins m))"
  shows "\<exists>stops. r_effects (refresh_loops ext limit m) =
           concat (map (doc_effects ext (configPlugins m) (map_of (plugins m))) (database_plugins m)) @ stops \<and>
           (\<forall>e\<in>set stops. \<exists>k. e = StopPlugin k \<and>
              k \<notin> {Name d |d. d \<in> set (database_plugins m) \<and> pluginOn (configPlugins m) (Name d)})"
proof -
  let ?init = "\<lparr>r_plugins = plugins m, r_seen = [], r_found = 0, r_rollbackId = '''', r_effects = []\<rparr>"
  let ?v = "foldl (refresh_one ext (configPlugins m) limit) ?init (database_plugins m)"
  have e: "r_effects ?v =
      concat (map (doc_effects ext (configPlugins m) (map_of (plugins m))) (database_plugins m))"
    using refresh_loop_effects [where v = ?init and ext = ext and cfg = "configPlugins m" and limit = limit, OF assms]
    by simp
  have s: "set (r_seen ?v) =
      {Name d |d. d \<in> set (database_plugins m) \<and> pluginOn (configPlugins m) (Name d)}"
    using refresh_loop_seen [where v = ?init and ext = ext and cfg = "configPlugins m" and limit = limit
        and infos = "database_plugins m"]
    by simp
  from refresh_remove_effects [of "length (plugins m)" ?v]
  show ?thesis unfolding refresh_loops_def e s by simp
qed









lemma concat_doc_effects_other:
  "n \<notin> Name ` set infos \<Longrightarrow>
     \<forall>e\<in>set (concat (map (doc_effects ext cfg P) infos)). effect_plugin e \<noteq> Some n"
  by (induction infos) (auto dest: doc_effects_plugin)

lemma split_doc:
  assumes "distinct (map Name infos)" and "doc \<in> set infos"
  shows "\<exists>xs ys. infos = xs @ doc # ys \<and> Name doc \<notin> Name ` set xs \<and> Name doc \<notin> Name ` set ys"
proof -
  from assms(2) obtain xs ys where i: "infos = xs @ doc # ys"
    by (auto simp: in_set_conv_decomp)
  with assms(1) have "Name doc \<notin> Name ` set xs" "Name doc \<notin> Name ` set ys" by auto
  with i show ?thesis by blast
qed

text \<open>
  C6, amended. When the stored document of a running plugin differs from the running
  instance in its config or target bytes (the plugin being enabled and registered), the
  pass stops the old instance and at once starts a new one under the same name, with the
  document's config and targets. The new instance's \<open>LastId\<close> is the persisted \<open>LastId\<close>
  of the document when that is a valid id not older than the instant \<open>rollbackLimit\<close>
  before now; otherwise it is the id of that instant.
\<close>

theorem restart_on_change:
  assumes "database_up m"
    and "distinct (map Name (database_plugins m))"
    and "doc \<in> set (database_plugins m)"
    and "map_of (plugins m) (Name doc) = Some st"
    and "pluginChanged (info st) doc"
    and "pluginOn (configPlugins m) (Name doc)"
    and "registeredPlugins ext (pluginKey (Name doc)) = Some sp"
    and "refreshPlugins ext limit inserted sent m = (m', effs)"
  shows "\<exists>before after st'.
           effs = before @
             [StopPlugin (Name doc), StartPlugin (Name doc), UpdateCommands (Name doc)] @ after \<and>
           (\<forall>e\<in>set before \<union> set after. effect_plugin e \<noteq> Some (Name doc)) \<and>
           map_of (plugins m') (Name doc) = Some st' \<and>
           info st' = doc\<lparr>LastId := start_position limit (LastId doc)\<rparr> \<and>
           spec st' = sp \<and>
           plugger st' =
             \<lparr>PluggerName = Name doc, PluggerConfig = Config doc, PluggerTargets = Targets doc\<rparr> \<and>
           LastId (info st') =
             (if Valid (LastId doc) \<and> limit \<le> LastId doc then LastId doc else limit)"
proof -
  let ?infos = "database_plugins m"
  let ?cfg = "configPlugins m"
  let ?P = "map_of (plugins m)"
  let ?v = "refresh_loops ext limit m"
  let ?init = "\<lparr>r_plugins = plugins m, r_seen = [], r_found = 0, r_rollbackId = '''', r_effects = []\<rparr>"
  let ?loop = "foldl (refresh_one ext ?cfg limit) ?init ?infos"
  let ?n = "Name doc"
  let ?pl = "\<lparr>PluggerName = Name doc, PluggerConfig = Config doc, PluggerTargets = Targets doc\<rparr>"
  let ?st' = "\<lparr>info = doc\<lparr>LastId := start_position limit (LastId doc)\<rparr>, spec = sp,
      plugger = ?pl, plugin = Start sp ?pl\<rparr>"
  let ?tail = "if r_rollbackId ?v \<noteq> ''''
         then InsertIncoming wakeMessage #
              (if inserted \<and> sent then [SendRollback (r_rollbackId ?v)] else [])
         else []"
  have starts: "doc_starts ext ?cfg ?P doc"
    using assms(4-7) by (simp add: doc_starts_def)
  have stops: "doc_stops ?cfg ?P doc"
    using assms(4-6) by (simp add: doc_stops_def)
  have de: "doc_effects ext ?cfg ?P doc = [StopPlugin ?n, StartPlugin ?n, UpdateCommands ?n]"
    using starts stops by (simp add: doc_effects_def)
  from split_doc [OF assms(2,3)] obtain xs ys where
    infos: "?infos = xs @ doc # ys" and nx: "?n \<notin> Name ` set xs" and ny: "?n \<notin> Name ` set ys"
    by blast
  have seen: "?n \<in> {Name d |d. d \<in> set ?infos \<and> pluginOn ?cfg (Name d)}"
    using assms(3,6) by blast
  from refresh_loops_effects [OF assms(2), of ext limit] obtain removed where
    ev: "r_effects ?v = concat (map (doc_effects ext ?cfg ?P) ?infos) @ removed" and
    removed: "\<forall>e\<in>set removed. \<exists>k. e = StopPlugin k \<and>
        k \<notin> {Name d |d. d \<in> set ?infos \<and> pluginOn ?cfg (Name d)}"
    by blast
  have effs: "effs = r_effects ?v @ ?tail"
    using assms(8) refreshPlugins_eq [OF assms(1), of ext limit inserted sent] by simp
  let ?before = "concat (map (doc_effects ext ?cfg ?P) xs)"
  let ?after = "concat (map (doc_effects ext ?cfg ?P) ys) @ removed @ ?tail"
  have e1: "effs = ?before @ [StopPlugin ?n, StartPlugin ?n, UpdateCommands ?n] @ ?after"
    unfolding effs ev infos by (simp add: de)
  have b: "\<forall>e\<in>set ?before. effect_plugin e \<noteq> Some ?n"
    by (rule concat_doc_effects_other [OF nx])
  have a1: "\<forall>e\<in>set (concat (map (doc_effects ext ?cfg ?P) ys)). effect_plugin e \<noteq> Some ?n"
    by (rule concat_doc_effects_other [OF ny])
  have a2: "\<forall>e\<in>set removed. effect_plugin e \<noteq> Some ?n"
  proof
    fix e assume "e \<in> set removed"
    with removed obtain k where "e = StopPlugin k"
      "k \<notin> {Name d |d. d \<in> set ?infos \<and> pluginOn ?cfg (Name d)}" by blast
    with seen show "effect_plugin e \<noteq> Some ?n" by auto
  qed
  have a3: "\<forall>e\<in>set ?tail. effect_plugin e \<noteq> Some ?n" by auto
  have e2: "\<forall>e\<in>set ?before \<union> set ?after. effect_plugin e \<noteq> Some ?n"
    using b a1 a2 a3 by auto
  have sp: "startPlugin ext limit doc = Inr ?st'"
    by (rule startPlugin_registered [OF assms(7)])
  have "map_of (r_plugins ?loop) ?n = Some ?st'"
    using refresh_loop_self [OF assms(2,3) _ assms(7) sp, where v = ?init and cfg = ?cfg] starts
    by simp
  moreover have "?n \<in> set (r_seen ?loop)"
    using seen
      refresh_loop_seen [where v = ?init and ext = ext and cfg = ?cfg and limit = limit and infos = ?infos]
    by simp
  ultimately have "map_of (r_plugins ?v) ?n = Some ?st'"
    unfolding refresh_loops_def by (simp add: refresh_remove_plugins)
  moreover have "m' = m\<lparr>plugins := r_plugins ?v\<rparr>"
    using assms(8) refreshPlugins_eq [OF assms(1), of ext limit inserted sent] by simp
  ultimately have e3: "map_of (plugins m') ?n = Some ?st'" by simp
  have e4: "LastId (info ?st') =
      (if Valid (LastId doc) \<and> limit \<le> LastId doc then LastId doc else limit)"
    by (auto simp: start_position_def)
  have "effs = ?before @ [StopPlugin ?n, StartPlugin ?n, UpdateCommands ?n] @ ?after \<and>
      (\<forall>e\<in>set ?before \<union> set ?after. effect_plugin e \<noteq> Some ?n) \<and>
      map_of (plugins m') ?n = Some ?st' \<and>
      info ?st' = doc\<lparr>LastId := start_position limit (LastId doc)\<rparr> \<and>
      spec ?st' = sp \<and> plugger ?st' = ?pl \<and>
      LastId (info ?st') =
        (if Valid (LastId doc) \<and> limit \<le> LastId doc then LastId doc else limit)"
    using e1 e2 e3 e4 by simp
  then show ?thesis by blast
qed

theorem restart_on_change_witness:
  "snd (refreshPlugins ex_ext id3 True True ex_changed) =
     [StopPlugin ''echo'', StartPlugin ''echo'', UpdateCommands ''echo'',
      InsertIncoming wakeMessage, SendRollback id5] \<and>
   map (\<lambda>(n, st). (n, LastId (info st), Config (info st)))
     (plugins (fst (refreshPlugins ex_ext id3 True True ex_changed))) = [(''echo'', id5, ''{k: 1}'')] \<and>
   LastId (info ex_state) = id5"
  using restart_on_change [of ex_changed "ex_info\<lparr>Config := ''{k: 1}''\<rparr>" ex_state ex_ext ex_spec
      id3 True True
      "fst (refreshPlugins ex_ext id3 True True ex_changed)"
      "snd (refreshPlugins ex_ext id3 True True ex_changed)"]
  by (simp add: refreshPlugins_def refresh_remove_def refresh_one_def refresh_start_def
      startPlugin_def pluginOn_def pluginKey_def pluginChanged_def Valid_def Let_def
      ex_changed_def ex_manager_def ex_state_def ex_info_def ex_ext_def id3_def id5_def)

text \<open>
  As the specification states it, C6 fails: the running plugin below was last seen at \<open>id5\<close>, its
  document holds \<open>id5\<close>, and the instance started for the changed document starts from the
  limit \<open>id7\<close>.
\<close>

theorem restart_on_change_counterexample:
  "map_of (plugins ex_changed) ''echo'' = Some ex_state \<and>
   pluginChanged (info ex_state) (ex_info\<lparr>Config := ''{k: 1}''\<rparr>) \<and>
   map LastId (database_plugins ex_changed) = [id5] \<and>
   map (\<lambda>(n, st). (n, LastId (info st)))
     (plugins (fst (refreshPlugins ex_ext id7 True True ex_changed))) = [(''echo'', id7)] \<and>
   id5 < id7"
  by (simp add: refreshPlugins_def refresh_remove_def refresh_one_def refresh_start_def
      startPlugin_def pluginOn_def pluginKey_def pluginChanged_def Valid_def Let_def
      ex_changed_def ex_manager_def ex_state_def ex_info_def ex_ext_def id5_def id7_def)

subsection \<open>The wake-up message\<close>

lemma refresh_loop_no_rollback:
  "\<forall>e\<in>set (r_effects v). \<not> is_rollback_effect e \<Longrightarrow>
     \<forall>e\<in>set (r_effects (foldl (refresh_one ext cfg limit) v infos)). \<not> is_rollback_effect e"
proof (induction infos arbitrary: v)
  case Nil
  then show ?case by simp
next
  case (Cons doc infos)
  have "\<forall>e\<in>set (r_effects (refresh_one ext cfg limit v doc)). \<not> is_rollback_effect e"
    using Cons.prems by (auto simp: refresh_one_effects dest: doc_effects_not_rollback)
  from Cons.IH [OF this] show ?case by simp
qed

lemma refresh_loops_no_rollback:
  "\<forall>e\<in>set (r_effects (refresh_loops ext limit m)). \<not> is_rollback_effect e"
proof -
  let ?init = "\<lparr>r_plugins = plugins m, r_seen = [], r_found = 0, r_rollbackId = '''', r_effects = []\<rparr>"
  let ?loop = "foldl (refresh_one ext (configPlugins m) limit) ?init (database_plugins m)"
  have l: "\<forall>e\<in>set (r_effects ?loop). \<not> is_rollback_effect e"
    by (rule refresh_loop_no_rollback) simp
  from refresh_remove_effects [of "length (plugins m)" ?loop] obtain stops where
    "r_effects (refresh_remove (length (plugins m)) ?loop) = r_effects ?loop @ stops"
    "\<forall>e\<in>set stops. \<exists>k. e = StopPlugin k" by blast
  with l show ?thesis
    unfolding refresh_loops_def by (auto simp: is_rollback_effect_def)
qed

lemma refreshPlugins_inserts:
  "InsertIncoming w \<in> set (snd (refreshPlugins ext limit inserted sent m)) \<Longrightarrow> w = wakeMessage"
proof (cases "database_up m")
  case False
  assume "InsertIncoming w \<in> set (snd (refreshPlugins ext limit inserted sent m))"
  with False show ?thesis by (simp add: refreshPlugins_def)
next
  case True
  assume w: "InsertIncoming w \<in> set (snd (refreshPlugins ext limit inserted sent m))"
  have "InsertIncoming w \<notin> set (r_effects (refresh_loops ext limit m))"
    using refresh_loops_no_rollback [of ext limit m] by (auto simp: is_rollback_effect_def)
  with w show ?thesis
    by (auto simp: refreshPlugins_eq [OF True] split: if_splits)
qed

text \<open>
  C4. A message whose command is the pong marker reaches no plugin: the step of the
  dispatch loop has no effect at all (no message, command or outgoing handler is called,
  nothing is written) and leaves the manager, every plugin's \<open>LastId\<close> included, as it
  was. The only message \<open>refreshPlugins\<close> inserts is its wake-up message, which carries
  the pong command and the rollback account: it is such a message, whatever id the store
  gives it.
\<close>

theorem pong_not_dispatched:
  "(Command msg = cmdPong \<longrightarrow> loop_incoming ext m msg = (m, [])) \<and>
   Command wakeMessage = cmdPong \<and> Account wakeMessage = rollbackAccount \<and>
   loop_incoming ext m (wakeMessage\<lparr>Id' := oid\<rparr>) = (m, []) \<and>
   (\<forall>w. InsertIncoming w \<in> set (snd (refreshPlugins ext limit inserted sent m)) \<longrightarrow>
      w = wakeMessage)"
  using refreshPlugins_inserts [of _ ext limit inserted sent m]
  by (simp add: loop_incoming_def wakeMessage_def)

theorem pong_not_dispatched_witness:
  "Command (ex_msg\<lparr>Id' := id9, Command := ''PONG''\<rparr>) = cmdPong \<and>
   loop_incoming ex_ext ex_manager (ex_msg\<lparr>Id' := id9, Command := ''PONG''\<rparr>) = (ex_manager, []) \<and>
   loop_incoming ex_ext ex_manager (wakeMessage\<lparr>Id' := id9\<rparr>) = (ex_manager, [])"
  using pong_not_dispatched [of "ex_msg\<lparr>Id' := id9, Command := ''PONG''\<rparr>" ex_ext ex_manager id9
      id7 True True]
  by (simp add: cmdPong_def)

subsection \<open>The outbound tail and the confirmation of an account\<close>





lemma Update_lastid_exists:
  "n \<in> AccountName ` set accs \<Longrightarrow> \<exists>accs'. Update_lastid accs n oid = Some accs'"
  by (induction accs) auto









end
